theory Spec2Isabelle
  imports Main
begin

section \<open>NotesApp: the encryption service and the note blockchain\<close>

text \<open>
  A shallow embedding of \<^verbatim>\<open>src/services/encryptionService.ts\<close> and
  \<^verbatim>\<open>src/services/blockchainService.ts\<close>, with the data model of
  \<^verbatim>\<open>src/types/index.ts\<close>.

  The services call into the JavaScript runtime and into CryptoJS (\<^verbatim>\<open>JSON.stringify\<close>,
  \<^verbatim>\<open>JSON.parse\<close>, \<^verbatim>\<open>CryptoJS.SHA256\<close>, \<^verbatim>\<open>CryptoJS.AES\<close>, \<^verbatim>\<open>Date\<close>). None of that
  code belongs to the repository, so every such function is a field of the record
  \<open>runtime\<close>, and every definition below takes the runtime as its first argument. Clock
  readings (\<^verbatim>\<open>Date.now()\<close>, \<^verbatim>\<open>new Date()\<close>) and the random salt of the cipher are explicit
  arguments.
\<close>

subsection \<open>Data model (types/index.ts)\<close>

text \<open>
  A value of TypeScript type \<^verbatim>\<open>Date\<close>. In memory it is a \<^verbatim>\<open>Date\<close> object (milliseconds since
  the epoch). \<^verbatim>\<open>JSON.stringify\<close> writes a \<^verbatim>\<open>Date\<close> as its ISO string and \<^verbatim>\<open>JSON.parse\<close> does not
  turn the string back into an object (the storage service does that by hand with
  \<^verbatim>\<open>new Date(...)\<close>; the blockchain service does not), so a field read back from JSON holds
  the string.
\<close>

datatype js_date = DateObj int | DateStr string

record Note =
  note_id :: string
  title :: string
  content :: string
  note_createdAt :: js_date
  note_updatedAt :: js_date
  tags :: "string list option"

record EncryptedNote =
  enc_id :: string
  encryptedData :: string
  createdAt :: js_date
  updatedAt :: js_date

text \<open>
  \<^verbatim>\<open>timestamp\<close> and \<^verbatim>\<open>nonce\<close> are JavaScript numbers; the model takes the integers, on
  which JavaScript is exact below \<open>2^53\<close>.
\<close>

record BlockchainNote =
  block_id :: string
  hash :: string
  previousHash :: string
  timestamp :: int
  data :: EncryptedNote
  nonce :: int

text \<open>
  The static field \<^verbatim>\<open>chain: BlockchainNote[]\<close>. \<^verbatim>\<open>importBlockchain\<close> stores whatever
  \<^verbatim>\<open>JSON.parse\<close> returns without checking it against the declared type, so a slot of the
  array can hold a value that is not a block. The model keeps the smallest such value,
  \<^verbatim>\<open>null\<close> (\<open>None\<close>), next to the well-typed blocks (\<open>Some b\<close>); parsed values that are
  not arrays of blocks and nulls are outside the model.
\<close>

type_synonym entry = "BlockchainNote option"

datatype js_error = TypeError | Error string

text \<open>The body that \<^verbatim>\<open>encryptNote\<close> serializes: \<^verbatim>\<open>{title, content, tags}\<close>.\<close>

record note_body =
  body_title :: string
  body_content :: string
  body_tags :: "string list option"

subsection \<open>The runtime and library functions the services call\<close>

record runtime =
  SHA256 :: "string \<Rightarrow> string"
    \<comment> \<open>\<^verbatim>\<open>CryptoJS.SHA256(data).toString()\<close>\<close>
  JSON_stringify :: "EncryptedNote \<Rightarrow> string"
    \<comment> \<open>\<^verbatim>\<open>JSON.stringify(block.data)\<close>\<close>
  JSON_stringify_chain :: "entry list \<Rightarrow> string"
    \<comment> \<open>\<^verbatim>\<open>JSON.stringify(this.chain, null, 2)\<close>\<close>
  JSON_parse_chain :: "string \<Rightarrow> entry list option"
    \<comment> \<open>\<^verbatim>\<open>JSON.parse(chainData)\<close>; \<open>None\<close> when it throws a SyntaxError\<close>
  toISOString :: "int \<Rightarrow> string"
    \<comment> \<open>\<^verbatim>\<open>Date.prototype.toISOString\<close>, which \<^verbatim>\<open>Date.prototype.toJSON\<close> calls\<close>
  JSON_stringify_body :: "note_body \<Rightarrow> string"
    \<comment> \<open>\<^verbatim>\<open>JSON.stringify({title, content, tags})\<close>\<close>
  JSON_parse_body :: "string \<Rightarrow> note_body option"
    \<comment> \<open>\<^verbatim>\<open>JSON.parse(decryptedData)\<close>; \<open>None\<close> when it throws\<close>
  AES_encrypt :: "string \<Rightarrow> string \<Rightarrow> nat \<Rightarrow> string option"
    \<comment> \<open>\<^verbatim>\<open>CryptoJS.AES.encrypt(message, key).toString()\<close> under the random salt given;
        \<open>None\<close> when it throws\<close>
  AES_decrypt :: "string \<Rightarrow> string \<Rightarrow> string option"
    \<comment> \<open>\<^verbatim>\<open>CryptoJS.AES.decrypt(ciphertext, key).toString(CryptoJS.enc.Utf8)\<close>;
        \<open>None\<close> when it throws (malformed UTF-8)\<close>

subsection \<open>JavaScript string and number primitives\<close>

text \<open>\<^verbatim>\<open>String.prototype.substring(start, end)\<close> for non-negative integer arguments.\<close>

definition substring :: "string \<Rightarrow> nat \<Rightarrow> nat \<Rightarrow> string" where
  "substring s a b = take (max a b - min a b) (drop (min a b) s)"

text \<open>\<^verbatim>\<open>Array(n).join(sep)\<close>: \<open>n\<close> empty slots, hence \<open>n - 1\<close> separators.\<close>

definition Array_join :: "nat \<Rightarrow> string \<Rightarrow> string" where
  "Array_join n sep = concat (replicate (n - 1) sep)"

text \<open>
  What a template literal writes for a number: the decimal digits, for the integers (of
  magnitude below \<open>10^21\<close>, where JavaScript switches to exponent notation).
\<close>

fun digits :: "nat \<Rightarrow> string" where
  "digits n =
     (if n < 10 then [''0123456789'' ! n]
      else digits (n div 10) @ [''0123456789'' ! (n mod 10)])"

declare digits.simps [simp del]

definition Number_toString :: "int \<Rightarrow> string" where
  "Number_toString n = (if n < 0 then CHR ''-'' # digits (nat (- n)) else digits (nat n))"

subsection \<open>EncryptionService (encryptionService.ts)\<close>

definition ENCRYPTION_KEY :: string where
  "ENCRYPTION_KEY = ''notes-app-secret-key-256-bit-secure''"

text \<open>
  \<^verbatim>\<open>encryptNote\<close>: anything thrown inside the \<^verbatim>\<open>try\<close> is rethrown as
  \<^verbatim>\<open>Error('Failed to encrypt note')\<close>.
\<close>

definition encryptNote :: "runtime \<Rightarrow> nat \<Rightarrow> Note \<Rightarrow> js_error + EncryptedNote" where
  "encryptNote rt salt note =
     (let noteData = JSON_stringify_body rt
            \<lparr>body_title = title note, body_content = content note, body_tags = tags note\<rparr>
      in case AES_encrypt rt noteData ENCRYPTION_KEY salt of
           None \<Rightarrow> Inl (Error ''Failed to encrypt note'')
         | Some encrypted \<Rightarrow>
             Inr \<lparr>enc_id = note_id note, encryptedData = encrypted,
                  createdAt = note_createdAt note, updatedAt = note_updatedAt note\<rparr>)"

text \<open>
  \<^verbatim>\<open>decryptNote\<close>: an empty plaintext throws inside the \<^verbatim>\<open>try\<close>; every throw is rethrown as
  \<^verbatim>\<open>Error('Failed to decrypt note')\<close>.
\<close>

definition decryptNote :: "runtime \<Rightarrow> EncryptedNote \<Rightarrow> js_error + Note" where
  "decryptNote rt encryptedNote =
     (case AES_decrypt rt (encryptedData encryptedNote) ENCRYPTION_KEY of
        None \<Rightarrow> Inl (Error ''Failed to decrypt note'')
      | Some decryptedData \<Rightarrow>
          if decryptedData = [] then Inl (Error ''Failed to decrypt note'')
          else (case JSON_parse_body rt decryptedData of
                  None \<Rightarrow> Inl (Error ''Failed to decrypt note'')
                | Some noteData \<Rightarrow>
                    Inr \<lparr>note_id = enc_id encryptedNote,
                         title = body_title noteData,
                         content = body_content noteData,
                         note_createdAt = createdAt encryptedNote,
                         note_updatedAt = updatedAt encryptedNote,
                         tags = body_tags noteData\<rparr>))"

definition generateHash :: "runtime \<Rightarrow> string \<Rightarrow> string" where
  "generateHash rt d = SHA256 rt d"

definition verifyHash :: "runtime \<Rightarrow> string \<Rightarrow> string \<Rightarrow> bool" where
  "verifyHash rt d h = (let generatedHash = generateHash rt d in generatedHash = h)"

subsection \<open>BlockchainService (blockchainService.ts)\<close>

definition DIFFICULTY :: nat where
  "DIFFICULTY = 2"

text \<open>
  \<^verbatim>\<open>calculateHash\<close>: the digest of
  \<^verbatim>\<open>`${previousHash}${timestamp}${JSON.stringify(data)}${nonce}`\<close>. The stored hash and
  the block id are not part of the digested string.
\<close>

definition calculateHash :: "runtime \<Rightarrow> BlockchainNote \<Rightarrow> string" where
  "calculateHash rt block =
     generateHash rt
       (previousHash block @ Number_toString (timestamp block)
          @ JSON_stringify rt (data block) @ Number_toString (nonce block))"

text \<open>
  The clock readings one call of \<^verbatim>\<open>addNoteToBlockchain\<close> makes, in order: \<^verbatim>\<open>Date.now()\<close> and
  two \<^verbatim>\<open>new Date()\<close> in \<^verbatim>\<open>createGenesisBlock\<close> (only when the chain is empty), then
  \<^verbatim>\<open>Date.now()\<close> for the new block.
\<close>

record clock =
  genesis_now :: int
  genesis_createdAt :: int
  genesis_updatedAt :: int
  block_now :: int

definition createGenesisBlock :: "runtime \<Rightarrow> clock \<Rightarrow> BlockchainNote" where
  "createGenesisBlock rt clk =
     (let genesisBlock =
        \<lparr>block_id = ''genesis'', hash = '''', previousHash = ''0'',
         timestamp = genesis_now clk,
         data = \<lparr>enc_id = ''genesis'', encryptedData = ''Genesis Block'',
                 createdAt = DateObj (genesis_createdAt clk),
                 updatedAt = DateObj (genesis_updatedAt clk)\<rparr>,
         nonce = 0\<rparr>
      in genesisBlock\<lparr>hash := calculateHash rt genesisBlock\<rparr>)"

text \<open>
  \<^verbatim>\<open>mineBlock\<close>: the \<^verbatim>\<open>while\<close> loop has no bound, so the model is a partial function and
  \<open>None\<close> stands for a search that never ends. The loop tests the hash the block carries
  before it touches the nonce, and increments the nonce before it hashes.
\<close>

definition target :: string where
  "target = Array_join (DIFFICULTY + 1) ''0''"

partial_function (option) mineBlock :: "runtime \<Rightarrow> BlockchainNote \<Rightarrow> BlockchainNote option" where
  "mineBlock rt block =
     (if substring (hash block) 0 DIFFICULTY \<noteq> target
      then mineBlock rt
             (let block1 = block\<lparr>nonce := nonce block + 1\<rparr>
              in block1\<lparr>hash := calculateHash rt block1\<rparr>)
      else Some block)"

declare mineBlock.simps [code]

text \<open>
  \<^verbatim>\<open>addNoteToBlockchain\<close>, on the chain passed in; it returns the mined block and the new
  chain. \<open>None\<close>: mining never returns. \<^verbatim>\<open>previousBlock.hash\<close> throws a TypeError when the
  last slot of the chain holds \<^verbatim>\<open>null\<close>.
\<close>

definition addNoteToBlockchain ::
  "runtime \<Rightarrow> clock \<Rightarrow> EncryptedNote \<Rightarrow> entry list
     \<Rightarrow> (js_error + BlockchainNote \<times> entry list) option" where
  "addNoteToBlockchain rt clk encryptedNote chain =
     (let chain1 = (if length chain = 0 then chain @ [Some (createGenesisBlock rt clk)]
                    else chain)
      in case last chain1 of
           None \<Rightarrow> Some (Inl TypeError)
         | Some previousBlock \<Rightarrow>
             (let newBlock =
                \<lparr>block_id = enc_id encryptedNote, hash = '''',
                 previousHash = hash previousBlock, timestamp = block_now clk,
                 data = encryptedNote, nonce = 0\<rparr>
              in case mineBlock rt newBlock of
                   None \<Rightarrow> None
                 | Some minedBlock \<Rightarrow> Some (Inr (minedBlock, chain1 @ [Some minedBlock]))))"

text \<open>
  \<^verbatim>\<open>validateChain\<close>: the \<^verbatim>\<open>for\<close> loop from index 1. Reading \<^verbatim>\<open>.hash\<close> of a \<^verbatim>\<open>null\<close> slot
  throws a TypeError; the hash of the current block is compared before the previous block
  is read.
\<close>

function validate_from :: "runtime \<Rightarrow> entry list \<Rightarrow> nat \<Rightarrow> js_error + bool" where
  "validate_from rt chain i =
     (if i < length chain then
        (case chain ! i of
           None \<Rightarrow> Inl TypeError
         | Some currentBlock \<Rightarrow>
             if hash currentBlock \<noteq> calculateHash rt currentBlock then Inr False
             else (case chain ! (i - 1) of
                     None \<Rightarrow> Inl TypeError
                   | Some previousBlock \<Rightarrow>
                       if previousHash currentBlock \<noteq> hash previousBlock then Inr False
                       else validate_from rt chain (i + 1)))
      else Inr True)"
  by pat_completeness auto
termination
  by (relation "measure (\<lambda>(rt, chain, i). length chain - i)") auto

declare validate_from.simps [simp del]

definition validateChain :: "runtime \<Rightarrow> entry list \<Rightarrow> js_error + bool" where
  "validateChain rt chain = validate_from rt chain 1"

text \<open>
  \<^verbatim>\<open>Array.prototype.find\<close> with a callback that may throw: the first element the callback
  accepts, \<open>None\<close> (\<^verbatim>\<open>undefined\<close>) when it accepts none.
\<close>

fun Array_find :: "('a \<Rightarrow> js_error + bool) \<Rightarrow> 'a list \<Rightarrow> js_error + 'a option" where
  "Array_find f [] = Inr None"
| "Array_find f (x # xs) =
     (case f x of
        Inl e \<Rightarrow> Inl e
      | Inr True \<Rightarrow> Inr (Some x)
      | Inr False \<Rightarrow> Array_find f xs)"

text \<open>
  \<^verbatim>\<open>getBlockByNoteId\<close>: \<^verbatim>\<open>chain.find(block => block.data.id === noteId) || null\<close>; \<open>Inr None\<close>
  is the \<^verbatim>\<open>null\<close> result. The callback throws a TypeError on a \<^verbatim>\<open>null\<close> slot.
\<close>

definition getBlockByNoteId :: "entry list \<Rightarrow> string \<Rightarrow> js_error + BlockchainNote option" where
  "getBlockByNoteId chain noteId =
     (case Array_find
             (\<lambda>block. case block of
                         None \<Rightarrow> Inl TypeError
                       | Some b \<Rightarrow> Inr (enc_id (data b) = noteId))
             chain of
        Inl e \<Rightarrow> Inl e
      | Inr None \<Rightarrow> Inr None
      | Inr (Some found) \<Rightarrow> Inr found)"

text \<open>
  \<^verbatim>\<open>getBlockchainStats\<close>: the object literal reads the length, calls \<^verbatim>\<open>validateChain\<close>
  (which may throw) and reads the last slot, \<^verbatim>\<open>undefined\<close> (\<open>None\<close>) on an empty chain.
\<close>

record stats =
  totalBlocks :: nat
  isValid :: bool
  lastBlock :: "entry option"

definition getBlockchainStats :: "runtime \<Rightarrow> entry list \<Rightarrow> js_error + stats" where
  "getBlockchainStats rt chain =
     (case validateChain rt chain of
        Inl e \<Rightarrow> Inl e
      | Inr valid \<Rightarrow>
          Inr \<lparr>totalBlocks = length chain, isValid = valid,
               lastBlock = (if chain = [] then None else Some (last chain))\<rparr>)"

definition exportBlockchain :: "runtime \<Rightarrow> entry list \<Rightarrow> string" where
  "exportBlockchain rt chain = JSON_stringify_chain rt chain"

text \<open>
  \<^verbatim>\<open>importBlockchain\<close> returns the boolean and the chain it leaves behind. The ways out of
  the \<^verbatim>\<open>try\<close>: \<^verbatim>\<open>JSON.parse\<close> throws before the chain is assigned; \<^verbatim>\<open>validateChain\<close> returns
  \<^verbatim>\<open>true\<close> and the imported chain stays; it returns \<^verbatim>\<open>false\<close> and the \<^verbatim>\<open>else\<close> branch puts
  \<^verbatim>\<open>tempChain\<close> back; it throws, and the \<^verbatim>\<open>catch\<close> block returns \<^verbatim>\<open>false\<close> with the imported
  value still assigned.
\<close>

definition importBlockchain :: "runtime \<Rightarrow> string \<Rightarrow> entry list \<Rightarrow> bool \<times> entry list" where
  "importBlockchain rt chainData chain =
     (case JSON_parse_chain rt chainData of
        None \<Rightarrow> (False, chain)
      | Some importedChain \<Rightarrow>
          (let tempChain = chain in
           case validateChain rt importedChain of
             Inr True \<Rightarrow> (True, importedChain)
           | Inr False \<Rightarrow> (False, tempChain)
           | Inl e \<Rightarrow> (False, importedChain)))"

text \<open>
  A sequence of \<^verbatim>\<open>addNoteToBlockchain\<close> calls, each with its clock readings and its
  payload, run from the chain given; it stops at the first call that throws or never
  returns.
\<close>

fun addNotes ::
  "runtime \<Rightarrow> (clock \<times> EncryptedNote) list \<Rightarrow> entry list
     \<Rightarrow> (js_error + entry list) option" where
  "addNotes rt [] chain = Some (Inr chain)"
| "addNotes rt ((clk, encryptedNote) # calls) chain =
     (case addNoteToBlockchain rt clk encryptedNote chain of
        None \<Rightarrow> None
      | Some (Inl e) \<Rightarrow> Some (Inl e)
      | Some (Inr (minedBlock, chain')) \<Rightarrow> addNotes rt calls chain')"

subsection \<open>Notions of the specification\<close>

text \<open>
  The difficulty rule: a hash begins with \<open>DIFFICULTY\<close> characters \<^verbatim>\<open>'0'\<close>.
\<close>

definition meets_difficulty :: "string \<Rightarrow> bool" where
  "meets_difficulty h = (take DIFFICULTY h = replicate DIFFICULTY (CHR ''0''))"

text \<open>
  What \<^verbatim>\<open>JSON.parse(JSON.stringify(v))\<close> makes of a value of the data model: strings and
  numbers come back as they are, a \<^verbatim>\<open>Date\<close> object comes back as its ISO string.
\<close>

fun toJSON_date :: "(int \<Rightarrow> string) \<Rightarrow> js_date \<Rightarrow> js_date" where
  "toJSON_date fmt (DateObj t) = DateStr (fmt t)"
| "toJSON_date fmt (DateStr s) = DateStr s"

definition toJSON_data :: "(int \<Rightarrow> string) \<Rightarrow> EncryptedNote \<Rightarrow> EncryptedNote" where
  "toJSON_data fmt d =
     d\<lparr>createdAt := toJSON_date fmt (createdAt d), updatedAt := toJSON_date fmt (updatedAt d)\<rparr>"

definition toJSON_block :: "(int \<Rightarrow> string) \<Rightarrow> BlockchainNote \<Rightarrow> BlockchainNote" where
  "toJSON_block fmt b = b\<lparr>data := toJSON_data fmt (data b)\<rparr>"

definition toJSON_chain :: "(int \<Rightarrow> string) \<Rightarrow> entry list \<Rightarrow> entry list" where
  "toJSON_chain fmt chain = map (map_option (toJSON_block fmt)) chain"

subsection \<open>Notions used in the proofs\<close>

text \<open>The two comparisons \<^verbatim>\<open>validateChain\<close> makes at index \<open>i\<close>, on two slots that hold blocks.\<close>

definition link_ok :: "runtime \<Rightarrow> entry list \<Rightarrow> nat \<Rightarrow> bool" where
  "link_ok rt chain i =
     (case (chain ! i, chain ! (i - 1)) of
        (Some cur, Some prev) \<Rightarrow>
          hash cur = calculateHash rt cur \<and> previousHash cur = hash prev
      | _ \<Rightarrow> False)"

text \<open>
  The invariant of the chains that \<^verbatim>\<open>addNoteToBlockchain\<close> builds: every slot holds a
  block, and every index from 1 on passes both comparisons.
\<close>

definition built :: "runtime \<Rightarrow> entry list \<Rightarrow> bool" where
  "built rt chain =
     (None \<notin> set chain \<and> (\<forall>j. 1 \<le> j \<and> j < length chain \<longrightarrow> link_ok rt chain j))"

text \<open>The chain after the genesis push that \<^verbatim>\<open>addNoteToBlockchain\<close> makes on an empty chain.\<close>

definition with_genesis :: "runtime \<Rightarrow> clock \<Rightarrow> entry list \<Rightarrow> entry list" where
  "with_genesis rt clk chain =
     (if chain = [] then [Some (createGenesisBlock rt clk)] else chain)"

subsection \<open>A sample runtime\<close>

text \<open>
  Small stand-ins for the library functions, used to run the model on concrete inputs:
  a checksum for the digest (the character sum modulo 4 in the first two hexadecimal
  digits, modulo 256 in the last two), field lists for the serializers, a cipher that
  prefixes the salt and reverses the message, and parsers that know the texts of the
  examples below.
\<close>

definition hex2 :: "nat \<Rightarrow> string" where
  "hex2 n = [''0123456789abcdef'' ! (n div 16 mod 16), ''0123456789abcdef'' ! (n mod 16)]"

definition sample_digest :: "string \<Rightarrow> string" where
  "sample_digest s =
     (let t = sum_list (map of_char s) in hex2 (t mod 4) @ hex2 (t mod 256))"

definition sample_iso :: "int \<Rightarrow> string" where
  "sample_iso t = CHR ''D'' # Number_toString t"

fun sample_date_text :: "js_date \<Rightarrow> string" where
  "sample_date_text (DateObj t) = sample_iso t"
| "sample_date_text (DateStr s) = s"

definition sample_stringify :: "EncryptedNote \<Rightarrow> string" where
  "sample_stringify d =
     enc_id d @ '','' @ encryptedData d @ '','' @ sample_date_text (createdAt d)
       @ '','' @ sample_date_text (updatedAt d)"

fun sample_entry_text :: "entry \<Rightarrow> string" where
  "sample_entry_text None = ''null''"
| "sample_entry_text (Some b) =
     block_id b @ ''/'' @ hash b @ ''/'' @ previousHash b @ ''/''
       @ Number_toString (timestamp b) @ ''/'' @ sample_stringify (data b) @ ''/''
       @ Number_toString (nonce b)"

fun sample_entries_text :: "entry list \<Rightarrow> string" where
  "sample_entries_text [] = []"
| "sample_entries_text [e] = sample_entry_text e"
| "sample_entries_text (e # es) = sample_entry_text e @ '','' @ sample_entries_text es"

definition sample_stringify_chain :: "entry list \<Rightarrow> string" where
  "sample_stringify_chain chain = ''['' @ sample_entries_text chain @ '']''"

definition sample_clock1 :: clock where
  "sample_clock1 =
     \<lparr>genesis_now = 1000, genesis_createdAt = 1000, genesis_updatedAt = 1000,
      block_now = 2000\<rparr>"

definition sample_clock2 :: clock where
  "sample_clock2 =
     \<lparr>genesis_now = 3000, genesis_createdAt = 3000, genesis_updatedAt = 3000,
      block_now = 3000\<rparr>"

definition sample_payload1 :: EncryptedNote where
  "sample_payload1 =
     \<lparr>enc_id = ''n1'', encryptedData = ''U2FsdGVk'',
      createdAt = DateObj 500, updatedAt = DateObj 600\<rparr>"

definition sample_payload2 :: EncryptedNote where
  "sample_payload2 =
     \<lparr>enc_id = ''n2'', encryptedData = ''X1+aBcDe'',
      createdAt = DateObj 700, updatedAt = DateObj 800\<rparr>"

definition sample_genesis :: BlockchainNote where
  "sample_genesis =
     \<lparr>block_id = ''genesis'', hash = ''0276'', previousHash = ''0'', timestamp = 1000,
      data = \<lparr>enc_id = ''genesis'', encryptedData = ''Genesis Block'',
              createdAt = DateObj 1000, updatedAt = DateObj 1000\<rparr>,
      nonce = 0\<rparr>"

definition sample_block1 :: BlockchainNote where
  "sample_block1 =
     \<lparr>block_id = ''n1'', hash = ''0044'', previousHash = ''0276'', timestamp = 2000,
      data = sample_payload1, nonce = 1\<rparr>"

definition sample_block2 :: BlockchainNote where
  "sample_block2 =
     \<lparr>block_id = ''n2'', hash = ''00fc'', previousHash = ''0044'', timestamp = 3000,
      data = sample_payload2, nonce = 3\<rparr>"

text \<open>The candidate \<^verbatim>\<open>addNoteToBlockchain\<close> hands to \<^verbatim>\<open>mineBlock\<close> for the second payload.\<close>

definition sample_candidate2 :: BlockchainNote where
  "sample_candidate2 = sample_block2\<lparr>hash := [], nonce := 0\<rparr>"

text \<open>A block that carries a hash with the difficulty prefix that is not its digest.\<close>

definition sample_presealed :: BlockchainNote where
  "sample_presealed = sample_block1\<lparr>nonce := 0\<rparr>"

definition sample_chain :: "entry list" where
  "sample_chain = [Some sample_genesis, Some sample_block1]"

text \<open>A lone block that is neither sealed nor a genesis block.\<close>

definition sample_stray :: BlockchainNote where
  "sample_stray =
     \<lparr>block_id = ''x'', hash = ''ffff'', previousHash = ''abc'', timestamp = 1,
      data = \<lparr>enc_id = ''x'', encryptedData = ''junk'',
              createdAt = DateStr ''D1'', updatedAt = DateStr ''D1''\<rparr>,
      nonce = 7\<rparr>"

definition sample_parse_chain :: "string \<Rightarrow> entry list option" where
  "sample_parse_chain s =
     map_of
       [(''[]'', []),
        (''[null]'', [None]),
        (''[null,null]'', [None, None]),
        (sample_stringify_chain sample_chain, toJSON_chain sample_iso sample_chain),
        (sample_stringify_chain [Some sample_stray], [Some sample_stray])] s"

definition sample_stringify_body :: "note_body \<Rightarrow> string" where
  "sample_stringify_body b =
     body_title b @ ''|'' @ body_content b @ ''|''
       @ (case body_tags b of None \<Rightarrow> [] | Some ts \<Rightarrow> concat (map (\<lambda>t. t @ '';'') ts))"

definition sample_note :: Note where
  "sample_note =
     \<lparr>note_id = ''n1'', title = ''Groceries'', content = ''milk, eggs'',
      note_createdAt = DateObj 500, note_updatedAt = DateObj 600, tags = Some [''home'']\<rparr>"

definition sample_parse_body :: "string \<Rightarrow> note_body option" where
  "sample_parse_body s =
     map_of
       [(''Groceries|milk, eggs|home;'',
         \<lparr>body_title = ''Groceries'', body_content = ''milk, eggs'',
          body_tags = Some [''home'']\<rparr>)] s"

definition sample_encrypt :: "string \<Rightarrow> string \<Rightarrow> nat \<Rightarrow> string option" where
  "sample_encrypt message key salt = Some (digits salt @ '':'' @ rev message)"

definition sample_decrypt :: "string \<Rightarrow> string \<Rightarrow> string option" where
  "sample_decrypt ciphertext key =
     Some (rev (drop 1 (dropWhile (\<lambda>c. c \<noteq> CHR '':'') ciphertext)))"

definition sample_rt :: runtime where
  "sample_rt =
     \<lparr>SHA256 = sample_digest,
      JSON_stringify = sample_stringify,
      JSON_stringify_chain = sample_stringify_chain,
      JSON_parse_chain = sample_parse_chain,
      toISOString = sample_iso,
      JSON_stringify_body = sample_stringify_body,
      JSON_parse_body = sample_parse_body,
      AES_encrypt = sample_encrypt,
      AES_decrypt = sample_decrypt\<rparr>"

section \<open>Lemmas\<close>

subsection \<open>The difficulty test and the digest\<close>

lemma target_eq: "target = replicate DIFFICULTY (CHR ''0'')"
  by (simp add: target_def Array_join_def DIFFICULTY_def numeral_2_eq_2)

lemma difficulty_test: "(substring h 0 DIFFICULTY = target) = meets_difficulty h"
  by (simp add: substring_def target_eq meets_difficulty_def)

lemma not_meets_difficulty_empty: "\<not> meets_difficulty []"
  by (simp add: meets_difficulty_def DIFFICULTY_def)

lemma calculateHash_hash_update: "calculateHash rt (b\<lparr>hash := h\<rparr>) = calculateHash rt b"
  by (simp add: calculateHash_def)

subsection \<open>mineBlock\<close>

lemma mineBlock_unfold:
  "mineBlock rt b =
     (if meets_difficulty (hash b) then Some b
      else mineBlock rt
             (b\<lparr>nonce := nonce b + 1,
                hash := calculateHash rt (b\<lparr>nonce := nonce b + 1\<rparr>)\<rparr>))"
  by (subst mineBlock.simps) (simp add: difficulty_test Let_def)

text \<open>Partial correctness, by the fixpoint induction of the partial function.\<close>

lemma mine_post:
  assumes "mineBlock rt b = Some b'"
  shows "meets_difficulty (hash b')
         \<and> (\<not> meets_difficulty (hash b) \<or> hash b = calculateHash rt b
               \<longrightarrow> hash b' = calculateHash rt b')
         \<and> block_id b' = block_id b \<and> previousHash b' = previousHash b
         \<and> timestamp b' = timestamp b \<and> data b' = data b \<and> nonce b \<le> nonce b'"
  using assms
proof (induction rule: mineBlock.raw_induct[rotated 1, consumes 1])
  case (1 mine rt b b')
  show ?case
  proof (cases "meets_difficulty (hash b)")
    case False
    let ?b1 = "b\<lparr>nonce := nonce b + 1\<rparr>"
    let ?b2 = "?b1\<lparr>hash := calculateHash rt ?b1\<rparr>"
    from 1(2) False have "mine rt ?b2 = Some b'"
      by (simp add: Let_def difficulty_test)
    from 1(1)[OF this] False show ?thesis
      by (auto simp: calculateHash_hash_update)
  next
    case True
    with 1(2) have "b' = b" by (simp add: difficulty_test)
    with True show ?thesis by simp
  qed
qed

text \<open>Termination: induction on the number of increments up to a nonce that works.\<close>

lemma mine_terminates_aux:
  "meets_difficulty (calculateHash rt (b\<lparr>nonce := nonce b + int (Suc k)\<rparr>))
     \<Longrightarrow> \<exists>b'. mineBlock rt b = Some b'"
proof (induction k arbitrary: b)
  case 0
  let ?b2 = "b\<lparr>nonce := nonce b + 1, hash := calculateHash rt (b\<lparr>nonce := nonce b + 1\<rparr>)\<rparr>"
  from 0 have "meets_difficulty (hash ?b2)" by simp
  then have "mineBlock rt ?b2 = Some ?b2" by (subst mineBlock_unfold) simp
  then show ?case by (subst mineBlock_unfold) simp
next
  case (Suc k)
  let ?b2 = "b\<lparr>nonce := nonce b + 1, hash := calculateHash rt (b\<lparr>nonce := nonce b + 1\<rparr>)\<rparr>"
  have eq: "?b2\<lparr>nonce := nonce ?b2 + int (Suc k)\<rparr>
              = (b\<lparr>nonce := nonce b + int (Suc (Suc k))\<rparr>)\<lparr>hash := hash ?b2\<rparr>"
    by simp
  have "meets_difficulty (calculateHash rt (?b2\<lparr>nonce := nonce ?b2 + int (Suc k)\<rparr>))"
    unfolding eq calculateHash_hash_update using Suc.prems .
  from Suc.IH[OF this] show ?case by (subst mineBlock_unfold) simp
qed

lemma mine_terminates:
  assumes "meets_difficulty (hash b)
           \<or> (\<exists>k>0. meets_difficulty (calculateHash rt (b\<lparr>nonce := nonce b + int k\<rparr>)))"
  shows "\<exists>b'. mineBlock rt b = Some b'"
proof (cases "meets_difficulty (hash b)")
  case True
  then show ?thesis by (subst mineBlock_unfold) simp
next
  case False
  with assms obtain k where
    "k > 0" "meets_difficulty (calculateHash rt (b\<lparr>nonce := nonce b + int k\<rparr>))"
    by blast
  then obtain j where "k = Suc j" by (cases k) auto
  with \<open>meets_difficulty _\<close> show ?thesis using mine_terminates_aux by blast
qed

text \<open>Conversely, a search that returns has found such a nonce.\<close>

lemma mine_nonce:
  assumes "mineBlock rt b = Some b'"
  shows "nonce b \<le> nonce b' \<and> (\<not> meets_difficulty (hash b) \<longrightarrow> nonce b < nonce b')"
  using assms
proof (induction rule: mineBlock.raw_induct[rotated 1, consumes 1])
  case (1 mine rt b b')
  show ?case
  proof (cases "meets_difficulty (hash b)")
    case False
    let ?b1 = "b\<lparr>nonce := nonce b + 1\<rparr>"
    let ?b2 = "?b1\<lparr>hash := calculateHash rt ?b1\<rparr>"
    from 1(2) False have "mine rt ?b2 = Some b'"
      by (simp add: Let_def difficulty_test)
    from 1(1)[OF this] show ?thesis by simp
  next
    case True
    with 1(2) have "b' = b" by (simp add: difficulty_test)
    with True show ?thesis by simp
  qed
qed

lemma calculateHash_cong:
  "previousHash a = previousHash b \<Longrightarrow> timestamp a = timestamp b \<Longrightarrow> data a = data b \<Longrightarrow>
   nonce a = nonce b \<Longrightarrow> calculateHash rt a = calculateHash rt b"
  by (simp add: calculateHash_def)

lemma mine_returns_only_if:
  assumes "mineBlock rt b = Some b'"
  shows "meets_difficulty (hash b)
         \<or> (\<exists>k>0. meets_difficulty (calculateHash rt (b\<lparr>nonce := nonce b + int k\<rparr>)))"
proof (cases "meets_difficulty (hash b)")
  case True
  then show ?thesis by simp
next
  case False
  from mine_post[OF assms] False have p: "meets_difficulty (hash b')"
    "hash b' = calculateHash rt b'" "previousHash b' = previousHash b"
    "timestamp b' = timestamp b" "data b' = data b"
    by auto
  from mine_nonce[OF assms] False have n: "nonce b < nonce b'" by simp
  define k where "k = nat (nonce b' - nonce b)"
  from n have k: "k > 0" "nonce b + int k = nonce b'" by (simp_all add: k_def)
  have "calculateHash rt (b\<lparr>nonce := nonce b + int k\<rparr>) = calculateHash rt b'"
    by (rule calculateHash_cong) (simp_all add: p k)
  with p(1,2) have "meets_difficulty (calculateHash rt (b\<lparr>nonce := nonce b + int k\<rparr>))"
    by simp
  with k(1) show ?thesis by blast
qed

lemma mineBlock_returns_iff:
  "(\<exists>mined. mineBlock rt block = Some mined)
      \<longleftrightarrow> (meets_difficulty (hash block)
           \<or> (\<exists>k>0. meets_difficulty
                       (calculateHash rt (block\<lparr>nonce := nonce block + int k\<rparr>))))"
  using mine_returns_only_if mine_terminates by blast

subsection \<open>validateChain\<close>

lemma validate_from_true:
  "(\<forall>j. i \<le> j \<and> j < length chain \<longrightarrow> link_ok rt chain j)
     \<Longrightarrow> validate_from rt chain i = Inr True"
proof (induction rt chain i rule: validate_from.induct)
  case (1 rt chain i)
  show ?case
  proof (cases "i < length chain")
    case False
    then show ?thesis by (subst validate_from.simps) simp
  next
    case True
    with 1(2) have ok: "link_ok rt chain i" by simp
    then obtain cur prev where cp: "chain ! i = Some cur" "chain ! (i - 1) = Some prev"
      "hash cur = calculateHash rt cur" "previousHash cur = hash prev"
      by (auto simp: link_ok_def split: option.splits)
    have "validate_from rt chain (i + 1) = Inr True"
      using 1(1)[OF True cp(1) _ cp(2)] cp 1(2) by simp
    with True cp show ?thesis by (subst validate_from.simps) simp
  qed
qed

lemma validate_from_True_D:
  "validate_from rt chain i = Inr True \<Longrightarrow> i \<le> j \<Longrightarrow> j < length chain
     \<Longrightarrow> link_ok rt chain j"
proof (induction rt chain i rule: validate_from.induct)
  case (1 rt chain i)
  from 1(3,4) have il: "i < length chain" by simp
  from 1(2) il obtain cur prev where cp: "chain ! i = Some cur" "chain ! (i - 1) = Some prev"
      "hash cur = calculateHash rt cur" "previousHash cur = hash prev"
      "validate_from rt chain (i + 1) = Inr True"
    by (subst (asm) validate_from.simps) (auto split: option.splits if_splits)
  show ?case
  proof (cases "j = i")
    case True
    with cp show ?thesis by (simp add: link_ok_def)
  next
    case False
    with 1(3) have "i + 1 \<le> j" by simp
    from 1(1)[OF il cp(1) _ cp(2) _ cp(5) this 1(4)] cp show ?thesis by simp
  qed
qed

text \<open>
  What \<^verbatim>\<open>validateChain\<close> checks, in full: every index from 1 on holds a block sealed by
  its digest and linked to a block before it. Index 0 is not among them.
\<close>

lemma validateChain_True_iff:
  "validateChain rt chain = Inr True
     \<longleftrightarrow> (\<forall>j. 1 \<le> j \<and> j < length chain \<longrightarrow> link_ok rt chain j)"
  unfolding validateChain_def
  using validate_from_True_D validate_from_true by blast

lemma validate_throws_TypeError: "validate_from rt chain i = Inl e \<Longrightarrow> e = TypeError"
  by (induction rt chain i rule: validate_from.induct)
     (subst (asm) validate_from.simps, auto split: option.splits if_splits)

text \<open>On a chain whose slots all hold blocks no property read throws.\<close>

lemma validate_from_typed: "\<exists>r. validate_from rt (map Some blocks) i = Inr r"
proof (induction rt "map Some blocks :: entry list" i rule: validate_from.induct)
  case (1 rt i)
  show ?case
  proof (cases "i < length blocks")
    case False
    then show ?thesis by (subst validate_from.simps) auto
  next
    case True
    then have c: "map Some blocks ! i = Some (blocks ! i)"
      "map Some blocks ! (i - 1) = Some (blocks ! (i - 1))"
      by simp_all
    show ?thesis
      using 1[OF _ c(1) _ c(2)] True c
      by (subst validate_from.simps) auto
  qed
qed

lemma validateChain_typed: "\<exists>r. validateChain rt (map Some blocks) = Inr r"
  unfolding validateChain_def by (rule validate_from_typed)

text \<open>From index 1 on, the loop reads nothing of the first block but its hash.\<close>

lemma validate_from_genesis:
  assumes "hash g' = hash g" "1 \<le> i"
  shows "validate_from rt (Some g' # rest) i = validate_from rt (Some g # rest) i"
  using assms
proof (induction rt "Some g # rest" i rule: validate_from.induct)
  case (1 rt i)
  show ?case
  proof (cases "i < length (Some g # rest)")
    case False
    then show ?thesis
      by (subst validate_from.simps, subst (2) validate_from.simps) simp
  next
    case True
    from 1(3) obtain k where k: "i = Suc k" by (cases i) auto
    show ?thesis
    proof (cases "rest ! k")
      case None
      with k True show ?thesis
        by (subst validate_from.simps, subst (2) validate_from.simps) simp
    next
      case (Some cur)
      show ?thesis
      proof (cases k)
        case 0
        with k True Some 1(2) 1(1)[of cur g] show ?thesis
          by (subst validate_from.simps, subst (2) validate_from.simps) auto
      next
        case (Suc m)
        show ?thesis
        proof (cases "rest ! m")
          case None
          with k True Some Suc show ?thesis
            by (subst validate_from.simps, subst (2) validate_from.simps) simp
        next
          case (Some prev)
          with k True \<open>rest ! k = Some cur\<close> Suc 1(2) 1(1)[of cur prev] show ?thesis
            by (subst validate_from.simps, subst (2) validate_from.simps) auto
        qed
      qed
    qed
  qed
qed

lemma validate_short: "length chain \<le> 1 \<Longrightarrow> validateChain rt chain = Inr True"
  unfolding validateChain_def by (subst validate_from.simps) simp

lemma built_validate: "built rt chain \<Longrightarrow> validateChain rt chain = Inr True"
  unfolding validateChain_def by (rule validate_from_true) (simp add: built_def)

subsection \<open>addNoteToBlockchain\<close>

lemma addNote_Inr:
  assumes "addNoteToBlockchain rt clk payload chain = Some (Inr (b, chain'))"
  shows "\<exists>prev. last (with_genesis rt clk chain) = Some prev
           \<and> chain' = with_genesis rt clk chain @ [Some b]
           \<and> mineBlock rt \<lparr>block_id = enc_id payload, hash = [], previousHash = hash prev,
                  timestamp = block_now clk, data = payload, nonce = 0\<rparr> = Some b"
  using assms
  by (auto simp: addNoteToBlockchain_def with_genesis_def Let_def
           split: option.splits if_splits)

lemma addNote_block:
  assumes "addNoteToBlockchain rt clk payload chain = Some (Inr (b, chain'))"
  shows "\<exists>prev. last (with_genesis rt clk chain) = Some prev
           \<and> chain' = with_genesis rt clk chain @ [Some b]
           \<and> previousHash b = hash prev \<and> hash b = calculateHash rt b
           \<and> meets_difficulty (hash b) \<and> data b = payload
           \<and> block_id b = enc_id payload \<and> timestamp b = block_now clk"
proof -
  from addNote_Inr[OF assms] obtain prev where
    p: "last (with_genesis rt clk chain) = Some prev"
       "chain' = with_genesis rt clk chain @ [Some b]"
    and m: "mineBlock rt \<lparr>block_id = enc_id payload, hash = [], previousHash = hash prev,
                 timestamp = block_now clk, data = payload, nonce = 0\<rparr> = Some b"
    by blast
  from mine_post[OF m] have "meets_difficulty (hash b)" "hash b = calculateHash rt b"
    "block_id b = enc_id payload" "previousHash b = hash prev"
    "timestamp b = block_now clk" "data b = payload"
    by (auto simp: not_meets_difficulty_empty)
  with p show ?thesis by blast
qed

lemma built_Nil: "built rt []"
  by (simp add: built_def)

lemma built_genesis: "built rt [Some g]"
  by (simp add: built_def)

lemma built_snoc:
  assumes "built rt chain" "chain \<noteq> []" "last chain = Some prev"
    "previousHash b = hash prev" "hash b = calculateHash rt b"
  shows "built rt (chain @ [Some b])"
proof -
  have "link_ok rt (chain @ [Some b]) j" if j: "1 \<le> j" "j < length (chain @ [Some b])" for j
  proof (cases "j < length chain")
    case True
    with j assms(1) have "link_ok rt chain j" by (simp add: built_def)
    moreover from True j have "j - 1 < length chain" by simp
    ultimately show ?thesis using True by (simp add: link_ok_def nth_append)
  next
    case False
    with j have e: "j = length chain" by simp
    with assms(2,3) have "(chain @ [Some b]) ! (j - 1) = Some prev"
      by (simp add: nth_append last_conv_nth)
    with e assms(4,5) show ?thesis by (simp add: link_ok_def)
  qed
  with assms(1) show ?thesis by (simp add: built_def)
qed

lemma addNote_built:
  assumes "built rt chain" "addNoteToBlockchain rt clk payload chain = Some (Inr (b, chain'))"
  shows "built rt chain'"
proof -
  from addNote_block[OF assms(2)] obtain prev where
    p: "last (with_genesis rt clk chain) = Some prev"
       "chain' = with_genesis rt clk chain @ [Some b]"
       "previousHash b = hash prev" "hash b = calculateHash rt b"
    by blast
  have "built rt (with_genesis rt clk chain)" "with_genesis rt clk chain \<noteq> []"
    using assms(1) by (simp_all add: with_genesis_def built_genesis)
  from built_snoc[OF this p(1,3,4)] p(2) show ?thesis by simp
qed

lemma addNote_length:
  assumes "addNoteToBlockchain rt clk payload chain = Some (Inr (b, chain'))"
  shows "length chain' = (if chain = [] then 2 else length chain + 1)"
  using addNote_block[OF assms] by (auto simp: with_genesis_def)

lemma addNotes_built:
  "built rt chain \<Longrightarrow> addNotes rt calls chain = Some (Inr chain') \<Longrightarrow> built rt chain'"
proof (induction calls arbitrary: chain)
  case Nil
  then show ?case by simp
next
  case (Cons call calls)
  obtain clk payload where c: "call = (clk, payload)" by (cases call)
  from Cons.prems(2) c obtain b chain2 where
    s: "addNoteToBlockchain rt clk payload chain = Some (Inr (b, chain2))"
       "addNotes rt calls chain2 = Some (Inr chain')"
    by (auto split: option.splits sum.splits)
  from Cons.IH[OF addNote_built[OF Cons.prems(1) s(1)] s(2)] show ?case .
qed

lemma addNotes_length:
  "addNotes rt calls chain = Some (Inr chain') \<Longrightarrow>
     length chain' =
       (if calls = [] then length chain
        else if chain = [] then length calls + 1 else length chain + length calls)"
proof (induction calls arbitrary: chain)
  case Nil
  then show ?case by simp
next
  case (Cons call calls)
  obtain clk payload where c: "call = (clk, payload)" by (cases call)
  from Cons.prems c obtain b chain2 where
    s: "addNoteToBlockchain rt clk payload chain = Some (Inr (b, chain2))"
       "addNotes rt calls chain2 = Some (Inr chain')"
    by (auto split: option.splits sum.splits)
  from addNote_length[OF s(1)] have "chain2 \<noteq> []" by (auto split: if_splits)
  with Cons.IH[OF s(2)] addNote_length[OF s(1)] show ?case by (auto split: if_splits)
qed

subsection \<open>getBlockByNoteId\<close>

lemma Array_find_typed:
  "Array_find (\<lambda>block. case block of None \<Rightarrow> Inl TypeError | Some b \<Rightarrow> Inr (P b))
       (map Some blocks)
     = Inr (map_option Some (List.find P blocks))"
  by (induction blocks) auto

lemma getBlockByNoteId_typed:
  "getBlockByNoteId (map Some blocks) noteId
     = Inr (List.find (\<lambda>b. enc_id (data b) = noteId) blocks)"
  unfolding getBlockByNoteId_def Array_find_typed
  by (cases "List.find (\<lambda>b. enc_id (data b) = noteId) blocks") simp_all

lemma getBlockByNoteId_head:
  "enc_id (data g) = noteId \<Longrightarrow> getBlockByNoteId (Some g # rest) noteId = Inr (Some g)"
  by (simp add: getBlockByNoteId_def)

lemma map_Some_the: "None \<notin> set chain \<Longrightarrow> map Some (map the chain) = chain"
  by (induction chain) auto

lemma getBlockByNoteId_absent:
  assumes "\<forall>e\<in>set chain. \<exists>x. e = Some x \<and> enc_id (data x) \<noteq> noteId"
  shows "getBlockByNoteId chain noteId = Inr None"
proof -
  from assms have n: "None \<notin> set chain" by auto
  have "List.find (\<lambda>b. enc_id (data b) = noteId) (map the chain) = None"
    using assms by (auto simp: find_None_iff)
  with getBlockByNoteId_typed[of "map the chain" noteId] map_Some_the[OF n]
  show ?thesis by simp
qed

text \<open>
  The payload ids of a chain built by \<^verbatim>\<open>addNoteToBlockchain\<close>: the id of the genesis
  payload and the ids of the payloads appended; the genesis block stays first.
\<close>

lemma addNote_ids:
  assumes "addNoteToBlockchain rt clk payload chain = Some (Inr (b, chain'))"
    and "\<forall>e\<in>set chain. \<exists>x. e = Some x \<and> enc_id (data x) \<in> S"
    and "''genesis'' \<in> S" "enc_id payload \<in> S"
  shows "\<forall>e\<in>set chain'. \<exists>x. e = Some x \<and> enc_id (data x) \<in> S"
proof -
  from addNote_block[OF assms(1)] have c: "chain' = with_genesis rt clk chain @ [Some b]"
    and d: "data b = payload" by auto
  have "enc_id (data (createGenesisBlock rt clk)) = ''genesis''"
    by (simp add: createGenesisBlock_def Let_def)
  with assms(2,3)
  have "\<forall>e\<in>set (with_genesis rt clk chain). \<exists>x. e = Some x \<and> enc_id (data x) \<in> S"
    by (simp add: with_genesis_def)
  with c d assms(4) show ?thesis by auto
qed

lemma addNotes_ids:
  "addNotes rt calls chain = Some (Inr chain') \<Longrightarrow>
   \<forall>e\<in>set chain. \<exists>x. e = Some x \<and> enc_id (data x) \<in> S \<Longrightarrow>
   ''genesis'' \<in> S \<Longrightarrow> (\<forall>c\<in>set calls. enc_id (snd c) \<in> S) \<Longrightarrow>
   \<forall>e\<in>set chain'. \<exists>x. e = Some x \<and> enc_id (data x) \<in> S"
proof (induction calls arbitrary: chain)
  case Nil
  then show ?case by simp
next
  case (Cons call calls)
  obtain clk payload where c: "call = (clk, payload)" by (cases call)
  from Cons.prems(1) c obtain b chain2 where
    s: "addNoteToBlockchain rt clk payload chain = Some (Inr (b, chain2))"
       "addNotes rt calls chain2 = Some (Inr chain')"
    by (auto split: option.splits sum.splits)
  from Cons.prems(4) c have p: "enc_id payload \<in> S" "\<forall>c\<in>set calls. enc_id (snd c) \<in> S"
    by simp_all
  from addNote_ids[OF s(1) Cons.prems(2,3) p(1)]
  have "\<forall>e\<in>set chain2. \<exists>x. e = Some x \<and> enc_id (data x) \<in> S" .
  from Cons.IH[OF s(2) this Cons.prems(3) p(2)] show ?case .
qed

lemma addNotes_prefix:
  "chain \<noteq> [] \<Longrightarrow> addNotes rt calls chain = Some (Inr chain')
     \<Longrightarrow> \<exists>ext. chain' = chain @ ext"
proof (induction calls arbitrary: chain)
  case Nil
  then show ?case by simp
next
  case (Cons call calls)
  obtain clk payload where c: "call = (clk, payload)" by (cases call)
  from Cons.prems(2) c obtain b chain2 where
    s: "addNoteToBlockchain rt clk payload chain = Some (Inr (b, chain2))"
       "addNotes rt calls chain2 = Some (Inr chain')"
    by (auto split: option.splits sum.splits)
  from addNote_block[OF s(1)] Cons.prems(1) have c2: "chain2 = chain @ [Some b]"
    by (auto simp: with_genesis_def)
  then have "chain2 \<noteq> []" by simp
  from Cons.IH[OF this s(2)] c2 show ?case by auto
qed

lemma addNotes_genesis_first:
  assumes "addNotes rt ((clk, payload) # calls) [] = Some (Inr chain')"
  shows "\<exists>rest. chain' = Some (createGenesisBlock rt clk) # rest"
proof -
  from assms obtain b chain2 where
    s: "addNoteToBlockchain rt clk payload [] = Some (Inr (b, chain2))"
       "addNotes rt calls chain2 = Some (Inr chain')"
    by (auto split: option.splits sum.splits)
  from addNote_block[OF s(1)] have c2: "chain2 = [Some (createGenesisBlock rt clk), Some b]"
    by (auto simp: with_genesis_def)
  then have "chain2 \<noteq> []" by simp
  from addNotes_prefix[OF this s(2)] c2 show ?thesis by auto
qed

subsection \<open>The JSON image of a chain and importBlockchain\<close>

lemma toJSON_block_fields:
  "hash (toJSON_block f b) = hash b" "previousHash (toJSON_block f b) = previousHash b"
  "timestamp (toJSON_block f b) = timestamp b" "nonce (toJSON_block f b) = nonce b"
  "block_id (toJSON_block f b) = block_id b"
  "enc_id (data (toJSON_block f b)) = enc_id (data b)"
  "encryptedData (data (toJSON_block f b)) = encryptedData (data b)"
  by (simp_all add: toJSON_block_def toJSON_data_def)

lemma calculateHash_toJSON:
  "JSON_stringify rt (toJSON_data f (data b)) = JSON_stringify rt (data b) \<Longrightarrow>
     calculateHash rt (toJSON_block f b) = calculateHash rt b"
  by (simp add: calculateHash_def toJSON_block_def)

lemma built_toJSON:
  assumes "built rt chain"
    and "\<forall>e\<in>set chain. case e of None \<Rightarrow> True
           | Some b \<Rightarrow> JSON_stringify rt (toJSON_data f (data b)) = JSON_stringify rt (data b)"
  shows "built rt (toJSON_chain f chain)"
proof -
  have "link_ok rt (toJSON_chain f chain) j" if j: "1 \<le> j" "j < length chain" for j
  proof -
    from assms(1) j have "link_ok rt chain j" by (simp add: built_def)
    then obtain cur prev where cp: "chain ! j = Some cur" "chain ! (j - 1) = Some prev"
      "hash cur = calculateHash rt cur" "previousHash cur = hash prev"
      by (auto simp: link_ok_def split: option.splits)
    from j cp(1) have "Some cur \<in> set chain" by (metis nth_mem)
    with assms(2)
    have "JSON_stringify rt (toJSON_data f (data cur)) = JSON_stringify rt (data cur)"
      by fastforce
    then have "calculateHash rt (toJSON_block f cur) = calculateHash rt cur"
      by (rule calculateHash_toJSON)
    with j cp show ?thesis
      by (simp add: link_ok_def toJSON_chain_def toJSON_block_fields)
  qed
  moreover from assms(1) have "None \<notin> set (toJSON_chain f chain)"
    by (auto simp: built_def toJSON_chain_def)
  ultimately show ?thesis by (simp add: built_def toJSON_chain_def)
qed

lemma import_result:
  "JSON_parse_chain rt chainData = Some candidate \<Longrightarrow>
   validateChain rt candidate = Inr True \<Longrightarrow>
     importBlockchain rt chainData prior = (True, candidate)"
  by (simp add: importBlockchain_def)

text \<open>
  The outcomes of \<^verbatim>\<open>importBlockchain\<close>: \<^verbatim>\<open>true\<close> with a parsed chain that validates, or
  \<^verbatim>\<open>false\<close> with either the prior chain or a parsed chain on which validation threw.
\<close>

lemma importBlockchain_returns:
  "importBlockchain rt chainData prior = (ok, chain') \<Longrightarrow>
     (ok \<longrightarrow> JSON_parse_chain rt chainData = Some chain' \<and> validateChain rt chain' = Inr True)
     \<and> (\<not> ok \<longrightarrow> chain' = prior
            \<or> (JSON_parse_chain rt chainData = Some chain'
                 \<and> (\<exists>e. validateChain rt chain' = Inl e)))"
  by (auto simp: importBlockchain_def split: option.splits sum.splits bool.splits)

subsection \<open>The sample chain\<close>

lemma sample_first_append:
  "addNoteToBlockchain sample_rt sample_clock1 sample_payload1 [] =
     Some (Inr (sample_block1, sample_chain))"
  by code_simp

lemma sample_second_append:
  "addNoteToBlockchain sample_rt sample_clock2 sample_payload2 sample_chain =
     Some (Inr (sample_block2, sample_chain @ [Some sample_block2]))"
  by code_simp

lemma sample_addNotes1:
  "addNotes sample_rt [(sample_clock1, sample_payload1)] [] = Some (Inr sample_chain)"
  by (simp add: sample_first_append)

lemma sample_addNotes2:
  "addNotes sample_rt [(sample_clock1, sample_payload1), (sample_clock2, sample_payload2)] []
     = Some (Inr (sample_chain @ [Some sample_block2]))"
  by (simp add: sample_first_append sample_second_append)

section \<open>The claims\<close>

subsection \<open>C1: validateChain and the genesis block\<close>

text \<open>
  Claim C1 says that \<^verbatim>\<open>validateChain\<close> returns \<^verbatim>\<open>false\<close> after the payload or the hash of
  any stored block, the genesis block included, has been changed in place, and that it
  re-verifies the stored hash of the genesis block against its recomputed digest. The loop
  starts at index 1, so it never recomputes the digest of the block at index 0 and reads
  nothing of that block but its hash: for every runtime and every chain, replacing the
  payload of the first block does not change the result of \<^verbatim>\<open>validateChain\<close>; a chain of
  one block is valid whatever hash that block carries; and on the sample chain built by
  \<^verbatim>\<open>addNoteToBlockchain\<close>, a genesis block with a rewritten payload still validates.
\<close>

theorem validateChain_skips_genesis:
  "validateChain rt (Some (genesis\<lparr>data := d\<rparr>) # rest) = validateChain rt (Some genesis # rest)
   \<and> validateChain rt [Some (genesis\<lparr>hash := h\<rparr>)] = Inr True
   \<and> validateChain sample_rt
         [Some (sample_genesis\<lparr>data := (data sample_genesis)\<lparr>encryptedData := ''tampered''\<rparr>\<rparr>),
          Some sample_block1] = Inr True"
proof (intro conjI)
  show "validateChain rt (Some (genesis\<lparr>data := d\<rparr>) # rest)
          = validateChain rt (Some genesis # rest)"
    unfolding validateChain_def by (rule validate_from_genesis) simp_all
  show "validateChain rt [Some (genesis\<lparr>hash := h\<rparr>)] = Inr True"
    by (rule validate_short) simp
  show "validateChain sample_rt
         [Some (sample_genesis\<lparr>data := (data sample_genesis)\<lparr>encryptedData := ''tampered''\<rparr>\<rparr>),
          Some sample_block1] = Inr True"
    by code_simp
qed

subsection \<open>C2: the first append\<close>

text \<open>
  Claim C2, as amended: whenever \<^verbatim>\<open>addNoteToBlockchain\<close> returns on the empty chain, the
  chain has length 2; its first block is the block \<^verbatim>\<open>createGenesisBlock\<close> makes, with
  \<^verbatim>\<open>previousHash\<close> \<^verbatim>\<open>"0"\<close>, nonce 0 and a hash equal to its digest (the genesis block is hashed
  once and not mined, so its hash is whatever the digest at nonce 0 is); the second block
  is the mined block, linked to the genesis hash, sealed by its digest and meeting the
  difficulty rule.
\<close>

theorem first_append_shape:
  assumes "addNoteToBlockchain rt clk payload [] = Some result"
  shows "\<exists>mined. result = Inr (mined, [Some (createGenesisBlock rt clk), Some mined])
           \<and> previousHash (createGenesisBlock rt clk) = ''0''
           \<and> nonce (createGenesisBlock rt clk) = 0
           \<and> hash (createGenesisBlock rt clk) = calculateHash rt (createGenesisBlock rt clk)
           \<and> previousHash mined = hash (createGenesisBlock rt clk)
           \<and> hash mined = calculateHash rt mined
           \<and> meets_difficulty (hash mined)"
proof -
  from assms obtain mined chain' where r: "result = Inr (mined, chain')"
    by (auto simp: addNoteToBlockchain_def Let_def split: option.splits)
  from addNote_block[OF assms[unfolded r]] have
    "chain' = [Some (createGenesisBlock rt clk), Some mined]"
    "previousHash mined = hash (createGenesisBlock rt clk)"
    "hash mined = calculateHash rt mined" "meets_difficulty (hash mined)"
    by (auto simp: with_genesis_def)
  moreover have "previousHash (createGenesisBlock rt clk) = ''0''"
    "nonce (createGenesisBlock rt clk) = 0"
    "hash (createGenesisBlock rt clk) = calculateHash rt (createGenesisBlock rt clk)"
    by (simp_all add: createGenesisBlock_def Let_def calculateHash_def)
  ultimately show ?thesis using r by blast
qed

text \<open>The theorem at the first append of the sample run.\<close>

theorem first_append_shape_witness:
  "addNoteToBlockchain sample_rt sample_clock1 sample_payload1 [] =
     Some (Inr (sample_block1, sample_chain))
   \<and> (\<exists>mined. Inr (sample_block1, sample_chain) =
          (Inr (mined, [Some (createGenesisBlock sample_rt sample_clock1), Some mined])
             :: js_error + BlockchainNote \<times> entry list)
        \<and> nonce (createGenesisBlock sample_rt sample_clock1) = 0
        \<and> meets_difficulty (hash mined))"
proof -
  have h: "addNoteToBlockchain sample_rt sample_clock1 sample_payload1 [] =
     Some (Inr (sample_block1, sample_chain))"
    by (rule sample_first_append)
  from first_append_shape[OF h] h show ?thesis by blast
qed

text \<open>
  C2 as stated fails: in the sample run the first append leaves a genesis block whose
  hash does not begin with two zeros.
\<close>

theorem first_append_genesis_not_mined:
  "addNoteToBlockchain sample_rt sample_clock1 sample_payload1 [] =
     Some (Inr (sample_block1, [Some sample_genesis, Some sample_block1]))
   \<and> \<not> meets_difficulty (hash sample_genesis)"
  by code_simp

subsection \<open>C3: importBlockchain when validation throws\<close>

text \<open>
  Claim C3 says that \<^verbatim>\<open>importBlockchain\<close> is an atomic swap: whenever it returns \<^verbatim>\<open>false\<close>
  the chain is the chain from before the call. \<^verbatim>\<open>validateChain\<close> throws a TypeError when
  the slot at index 1 holds \<^verbatim>\<open>null\<close>, whatever the runtime; the \<^verbatim>\<open>catch\<close> block of
  \<^verbatim>\<open>importBlockchain\<close> then returns \<^verbatim>\<open>false\<close> without putting \<^verbatim>\<open>tempChain\<close> back. On the sample
  chain, importing the text \<^verbatim>\<open>[null,null]\<close> returns \<^verbatim>\<open>false\<close> and leaves the two nulls as the
  chain: \<^verbatim>\<open>getBlockchainStats\<close>, which reported two valid blocks before the call, throws
  after it.
\<close>

theorem importBlockchain_throw_keeps_candidate:
  "validateChain rt [e, None] = Inl TypeError
   \<and> addNoteToBlockchain sample_rt sample_clock1 sample_payload1 [] =
       Some (Inr (sample_block1, sample_chain))
   \<and> importBlockchain sample_rt ''[null,null]'' sample_chain = (False, [None, None])
   \<and> getBlockchainStats sample_rt sample_chain =
       Inr \<lparr>totalBlocks = 2, isValid = True, lastBlock = Some (Some sample_block1)\<rparr>
   \<and> getBlockchainStats sample_rt (snd (importBlockchain sample_rt ''[null,null]'' sample_chain))
       = Inl TypeError"
proof (intro conjI)
  show "getBlockchainStats sample_rt sample_chain =
       Inr \<lparr>totalBlocks = 2, isValid = True, lastBlock = Some (Some sample_block1)\<rparr>"
    by code_simp
  show "getBlockchainStats sample_rt
          (snd (importBlockchain sample_rt ''[null,null]'' sample_chain)) = Inl TypeError"
    by code_simp
  show "validateChain rt [e, None] = Inl TypeError"
    unfolding validateChain_def by (subst validate_from.simps) simp
  show "addNoteToBlockchain sample_rt sample_clock1 sample_payload1 [] =
       Some (Inr (sample_block1, sample_chain))"
    by (rule sample_first_append)
  show "importBlockchain sample_rt ''[null,null]'' sample_chain = (False, [None, None])"
    by code_simp
qed

subsection \<open>C4: export followed by import\<close>

text \<open>
  Claim C4 says that \<^verbatim>\<open>importBlockchain(exportBlockchain())\<close> returns \<^verbatim>\<open>true\<close> and reproduces
  an identical, still valid chain, for every chain built by \<^verbatim>\<open>addNoteToBlockchain\<close> calls.
  On the sample chain, built by one call, the import returns \<^verbatim>\<open>true\<close>, but the chain it
  installs is not the chain that was exported: the \<^verbatim>\<open>createdAt\<close> of each payload was a
  \<^verbatim>\<open>Date\<close> object, as the type \<^verbatim>\<open>EncryptedNote\<close> declares, and is a string afterwards.
  \<^verbatim>\<open>importBlockchain\<close> stores what \<^verbatim>\<open>JSON.parse\<close> returns and does not convert the date
  strings back, which the storage service does after its own \<^verbatim>\<open>JSON.parse\<close>.
\<close>

theorem import_export_changes_dates:
  "addNotes sample_rt [(sample_clock1, sample_payload1)] [] = Some (Inr sample_chain)
   \<and> fst (importBlockchain sample_rt (exportBlockchain sample_rt sample_chain) sample_chain)
        = True
   \<and> snd (importBlockchain sample_rt (exportBlockchain sample_rt sample_chain) sample_chain)
        \<noteq> sample_chain
   \<and> map (map_option (\<lambda>b. createdAt (data b))) sample_chain
        = [Some (DateObj 1000), Some (DateObj 500)]
   \<and> map (map_option (\<lambda>b. createdAt (data b)))
        (snd (importBlockchain sample_rt (exportBlockchain sample_rt sample_chain) sample_chain))
        = [Some (DateStr ''D1000''), Some (DateStr ''D500'')]"
proof (intro conjI)
  show "addNotes sample_rt [(sample_clock1, sample_payload1)] [] = Some (Inr sample_chain)"
    by (rule sample_addNotes1)
qed code_simp+

text \<open>
  The rest of the round trip is sound: if \<^verbatim>\<open>JSON.parse\<close> reads the exported text back as
  the JSON image of the chain, and the JSON image of each payload serializes as the
  payload does, the import returns \<^verbatim>\<open>true\<close> and the installed chain is valid and agrees
  with the exported one on every field but the two dates of each payload.
\<close>

lemma import_export_roundtrip:
  assumes "addNotes rt calls [] = Some (Inr chain)"
    and "JSON_parse_chain rt (exportBlockchain rt chain)
           = Some (toJSON_chain (toISOString rt) chain)"
    and "\<forall>e\<in>set chain. case e of None \<Rightarrow> True
           | Some b \<Rightarrow> JSON_stringify rt (toJSON_data (toISOString rt) (data b))
                        = JSON_stringify rt (data b)"
  shows "importBlockchain rt (exportBlockchain rt chain) chain
           = (True, toJSON_chain (toISOString rt) chain)
         \<and> validateChain rt (toJSON_chain (toISOString rt) chain) = Inr True
         \<and> validateChain rt chain = Inr True
         \<and> map (map_option (\<lambda>b. (block_id b, hash b, previousHash b, timestamp b, nonce b,
                                  enc_id (data b), encryptedData (data b))))
               (toJSON_chain (toISOString rt) chain)
             = map (map_option (\<lambda>b. (block_id b, hash b, previousHash b, timestamp b, nonce b,
                                  enc_id (data b), encryptedData (data b)))) chain"
proof -
  from addNotes_built[OF built_Nil assms(1)] have b: "built rt chain" .
  from built_toJSON[OF b assms(3)] have "built rt (toJSON_chain (toISOString rt) chain)" .
  then have v: "validateChain rt (toJSON_chain (toISOString rt) chain) = Inr True"
    by (rule built_validate)
  from import_result[OF assms(2) v]
  have "importBlockchain rt (exportBlockchain rt chain) chain
           = (True, toJSON_chain (toISOString rt) chain)" .
  moreover
  have "map (map_option (\<lambda>b. (block_id b, hash b, previousHash b, timestamp b, nonce b,
                                  enc_id (data b), encryptedData (data b))))
               (toJSON_chain (toISOString rt) chain)
             = map (map_option (\<lambda>b. (block_id b, hash b, previousHash b, timestamp b, nonce b,
                                  enc_id (data b), encryptedData (data b)))) chain"
    by (simp add: toJSON_chain_def option.map_comp comp_def toJSON_block_fields)
  ultimately show ?thesis using v built_validate[OF b] by blast
qed

text \<open>The hypotheses of the lemma hold on the sample chain.\<close>

lemma import_export_roundtrip_sample:
  "addNotes sample_rt [(sample_clock1, sample_payload1)] [] = Some (Inr sample_chain)
   \<and> importBlockchain sample_rt (exportBlockchain sample_rt sample_chain) sample_chain
        = (True, toJSON_chain (toISOString sample_rt) sample_chain)
   \<and> validateChain sample_rt (toJSON_chain (toISOString sample_rt) sample_chain) = Inr True"
proof -
  have p: "JSON_parse_chain sample_rt (exportBlockchain sample_rt sample_chain)
             = Some (toJSON_chain (toISOString sample_rt) sample_chain)"
    by code_simp
  have s: "\<forall>e\<in>set sample_chain. case e of None \<Rightarrow> True
           | Some b \<Rightarrow> JSON_stringify sample_rt (toJSON_data (toISOString sample_rt) (data b))
                        = JSON_stringify sample_rt (data b)"
    by code_simp
  from import_export_roundtrip[OF sample_addNotes1 p s] sample_addNotes1
  show ?thesis by blast
qed

subsection \<open>C5: encryption followed by decryption\<close>

text \<open>
  Claim C5: for every note on which the libraries are inverse to each other (the cipher
  text under the salt of the call decrypts to the serialized body, which is not empty and
  parses back to the body), \<^verbatim>\<open>encryptNote\<close> succeeds with a payload that carries the id and
  the two dates of the note, and \<^verbatim>\<open>decryptNote\<close> of that payload succeeds and returns the
  note: the same id, title, content, tags, createdAt and updatedAt.
\<close>

theorem decrypt_encrypt_roundtrip:
  assumes "body = \<lparr>body_title = title n, body_content = content n, body_tags = tags n\<rparr>"
    and "AES_encrypt rt (JSON_stringify_body rt body) ENCRYPTION_KEY salt = Some ciphertext"
    and "AES_decrypt rt ciphertext ENCRYPTION_KEY = Some (JSON_stringify_body rt body)"
    and "JSON_stringify_body rt body \<noteq> []"
    and "JSON_parse_body rt (JSON_stringify_body rt body) = Some body"
  shows "\<exists>e. encryptNote rt salt n = Inr e \<and> enc_id e = note_id n
           \<and> createdAt e = note_createdAt n \<and> updatedAt e = note_updatedAt n
           \<and> decryptNote rt e = Inr n"
  using assms by (simp add: encryptNote_def decryptNote_def Let_def)

text \<open>
  The theorem on the sample note; two salts give two cipher texts, and the theorem holds
  for each.
\<close>

theorem decrypt_encrypt_roundtrip_witness:
  "(\<exists>e. encryptNote sample_rt 42 sample_note = Inr e \<and> enc_id e = note_id sample_note
       \<and> decryptNote sample_rt e = Inr sample_note)
   \<and> encryptNote sample_rt 42 sample_note \<noteq> encryptNote sample_rt 43 sample_note"
proof -
  let ?body = "\<lparr>body_title = ''Groceries'', body_content = ''milk, eggs'',
                body_tags = Some [''home'']\<rparr>"
  have b: "?body = \<lparr>body_title = title sample_note, body_content = content sample_note,
                    body_tags = tags sample_note\<rparr>"
    by code_simp
  have e: "AES_encrypt sample_rt (JSON_stringify_body sample_rt ?body) ENCRYPTION_KEY 42
             = Some ''42:;emoh|sgge ,klim|seirecorG''"
    by code_simp
  have d: "AES_decrypt sample_rt ''42:;emoh|sgge ,klim|seirecorG'' ENCRYPTION_KEY
             = Some (JSON_stringify_body sample_rt ?body)"
    by code_simp
  have n: "JSON_stringify_body sample_rt ?body \<noteq> []"
    by code_simp
  have p: "JSON_parse_body sample_rt (JSON_stringify_body sample_rt ?body) = Some ?body"
    by code_simp
  have ne: "encryptNote sample_rt 42 sample_note \<noteq> encryptNote sample_rt 43 sample_note"
    by code_simp
  from decrypt_encrypt_roundtrip[OF b e d n p] ne show ?thesis by blast
qed

subsection \<open>C6: the hash links\<close>

text \<open>
  Claim C6: after any sequence of \<^verbatim>\<open>addNoteToBlockchain\<close> calls from the empty chain that
  produces a chain of length \<open>n\<close>, every index \<open>i\<close> with \<open>1 \<le> i < n\<close> holds a block whose
  \<^verbatim>\<open>previousHash\<close> is the hash of the block at index \<open>i - 1\<close>; the chain holds the genesis
  block and one block for each call, so after two calls the block at index 2 is linked
  to the block at index 1.
\<close>

theorem chain_links:
  assumes "addNotes rt calls [] = Some (Inr chain)"
  shows "(\<forall>i. 1 \<le> i \<and> i < length chain \<longrightarrow>
            (\<exists>cur prev. chain ! i = Some cur \<and> chain ! (i - 1) = Some prev
                \<and> previousHash cur = hash prev))
         \<and> length chain = (if calls = [] then 0 else length calls + 1)"
proof -
  from addNotes_built[OF built_Nil assms] have b: "built rt chain" .
  have "\<exists>cur prev. chain ! i = Some cur \<and> chain ! (i - 1) = Some prev
          \<and> previousHash cur = hash prev"
    if "1 \<le> i" "i < length chain" for i
  proof -
    from b that have "link_ok rt chain i" by (simp add: built_def)
    then show ?thesis by (auto simp: link_ok_def split: option.splits)
  qed
  moreover from addNotes_length[OF assms]
  have "length chain = (if calls = [] then 0 else length calls + 1)" by simp
  ultimately show ?thesis by blast
qed

text \<open>The theorem after two appends of the sample run, at the indices 2 and 1.\<close>

theorem chain_links_witness:
  "addNotes sample_rt [(sample_clock1, sample_payload1), (sample_clock2, sample_payload2)] []
     = Some (Inr [Some sample_genesis, Some sample_block1, Some sample_block2])
   \<and> previousHash sample_block2 = hash sample_block1
   \<and> previousHash sample_block1 = hash sample_genesis"
proof -
  let ?chain = "[Some sample_genesis, Some sample_block1, Some sample_block2]"
  have h: "addNotes sample_rt
             [(sample_clock1, sample_payload1), (sample_clock2, sample_payload2)] []
           = Some (Inr ?chain)"
    using sample_addNotes2 by (simp add: sample_chain_def)
  from chain_links[OF h] have
    l: "\<forall>i. 1 \<le> i \<and> i < length ?chain \<longrightarrow>
            (\<exists>cur prev. ?chain ! i = Some cur \<and> ?chain ! (i - 1) = Some prev
                \<and> previousHash cur = hash prev)"
    by blast
  from l[rule_format, of 2] have "previousHash sample_block2 = hash sample_block1"
    by simp
  moreover from l[rule_format, of 1] have "previousHash sample_block1 = hash sample_genesis"
    by simp
  ultimately show ?thesis using h by blast
qed

subsection \<open>C7: the postcondition of mineBlock\<close>

text \<open>
  Claim C7, as amended: every block \<^verbatim>\<open>mineBlock\<close> returns has a hash that begins with
  \<open>DIFFICULTY\<close> zeros, and keeps the id, previousHash, timestamp and payload of the
  candidate; its hash equals its recomputed digest whenever the hash of the candidate did
  not already meet the difficulty rule or was already the digest of the candidate. Hence
  every block that enters the chain through the mining step satisfies both: the block
  \<^verbatim>\<open>addNoteToBlockchain\<close> returns is what \<^verbatim>\<open>mineBlock\<close> made of a candidate with the empty
  hash, it is the one block appended behind the chain (behind the genesis block, which is
  not mined, on an empty chain), its hash is its digest and meets the difficulty rule.
\<close>

theorem mineBlock_postcondition:
  "(mineBlock rt block = Some mined \<longrightarrow>
      meets_difficulty (hash mined)
      \<and> (\<not> meets_difficulty (hash block) \<or> hash block = calculateHash rt block
            \<longrightarrow> hash mined = calculateHash rt mined)
      \<and> block_id mined = block_id block \<and> previousHash mined = previousHash block
      \<and> timestamp mined = timestamp block \<and> data mined = data block)
   \<and> (addNoteToBlockchain rt clk payload chain = Some (Inr (added, chain')) \<longrightarrow>
        (\<exists>previousBlock.
           last (if chain = [] then [Some (createGenesisBlock rt clk)] else chain)
             = Some previousBlock
           \<and> mineBlock rt
               \<lparr>block_id = enc_id payload, hash = [], previousHash = hash previousBlock,
                timestamp = block_now clk, data = payload, nonce = 0\<rparr> = Some added)
        \<and> chain' = (if chain = [] then [Some (createGenesisBlock rt clk)] else chain)
                     @ [Some added]
        \<and> hash added = calculateHash rt added
        \<and> meets_difficulty (hash added))"
proof (intro conjI impI)
  assume m: "mineBlock rt block = Some mined"
  from mine_post[OF m] show "meets_difficulty (hash mined)"
    "block_id mined = block_id block" "previousHash mined = previousHash block"
    "timestamp mined = timestamp block" "data mined = data block"
    by simp_all
  assume "\<not> meets_difficulty (hash block) \<or> hash block = calculateHash rt block"
  with mine_post[OF m] show "hash mined = calculateHash rt mined" by blast
next
  assume a: "addNoteToBlockchain rt clk payload chain = Some (Inr (added, chain'))"
  from addNote_Inr[OF a] show "\<exists>previousBlock.
           last (if chain = [] then [Some (createGenesisBlock rt clk)] else chain)
             = Some previousBlock
           \<and> mineBlock rt
               \<lparr>block_id = enc_id payload, hash = [], previousHash = hash previousBlock,
                timestamp = block_now clk, data = payload, nonce = 0\<rparr> = Some added"
    by (auto simp: with_genesis_def)
  from addNote_block[OF a] show
    "chain' = (if chain = [] then [Some (createGenesisBlock rt clk)] else chain)
                @ [Some added]"
    "hash added = calculateHash rt added" "meets_difficulty (hash added)"
    by (auto simp: with_genesis_def)
qed

text \<open>The theorem on the second block of the sample run, mined in three steps.\<close>

theorem mineBlock_postcondition_witness:
  "mineBlock sample_rt sample_candidate2 = Some sample_block2
   \<and> \<not> meets_difficulty (hash sample_candidate2)
   \<and> meets_difficulty (hash sample_block2)
   \<and> hash sample_block2 = calculateHash sample_rt sample_block2
   \<and> addNoteToBlockchain sample_rt sample_clock2 sample_payload2 sample_chain
       = Some (Inr (sample_block2, sample_chain @ [Some sample_block2]))"
proof -
  have m: "mineBlock sample_rt sample_candidate2 = Some sample_block2"
    by code_simp
  have h: "\<not> meets_difficulty (hash sample_candidate2)"
    by (simp add: sample_candidate2_def not_meets_difficulty_empty)
  note p = mineBlock_postcondition[of sample_rt sample_candidate2
      sample_block2 sample_clock2 sample_payload2 sample_chain sample_block2
      "sample_chain @ [Some sample_block2]"]
  from p m h sample_second_append show ?thesis by auto
qed

text \<open>
  C7 as stated fails: \<^verbatim>\<open>mineBlock\<close> returns at once a candidate whose hash already begins
  with two zeros, and that hash is not the digest of the block.
\<close>

theorem mineBlock_keeps_foreign_hash:
  "mineBlock sample_rt sample_presealed = Some sample_presealed
   \<and> hash sample_presealed \<noteq> calculateHash sample_rt sample_presealed"
  by code_simp

subsection \<open>C8: lookup by payload id\<close>

text \<open>
  Claim C8, as amended: on every chain whose slots all hold blocks, and for every id,
  \<^verbatim>\<open>getBlockByNoteId\<close> does not throw; it returns the block at the least index whose payload
  id is the id, and \<^verbatim>\<open>null\<close> exactly when no block of the chain carries a payload with that
  id. On a chain built by one or more \<^verbatim>\<open>addNoteToBlockchain\<close> calls from the empty chain
  it returns the genesis block for the id \<^verbatim>\<open>genesis\<close>; on a chain built by any number of
  calls it returns \<^verbatim>\<open>null\<close> for every id other than \<^verbatim>\<open>genesis\<close> that was never appended as
  a payload.
\<close>

theorem getBlockByNoteId_first_match:
  "(None \<notin> set chain \<longrightarrow>
      (case getBlockByNoteId chain noteId of
         Inl e \<Rightarrow> False
       | Inr None \<Rightarrow> (\<forall>b. Some b \<in> set chain \<longrightarrow> enc_id (data b) \<noteq> noteId)
       | Inr (Some found) \<Rightarrow>
           (\<exists>i<length chain. chain ! i = Some found \<and> enc_id (data found) = noteId
              \<and> (\<forall>j<i. \<forall>b. chain ! j = Some b \<longrightarrow> enc_id (data b) \<noteq> noteId))))
   \<and> (addNotes rt ((clk, payload) # calls) [] = Some (Inr built1) \<longrightarrow>
        getBlockByNoteId built1 ''genesis'' = Inr (Some (createGenesisBlock rt clk)))
   \<and> (addNotes rt calls' [] = Some (Inr built2) \<and> noteId' \<noteq> ''genesis''
        \<and> noteId' \<notin> set (map (\<lambda>c. enc_id (snd c)) calls')
        \<longrightarrow> getBlockByNoteId built2 noteId' = Inr None)"
proof (intro conjI impI)
  assume n: "None \<notin> set chain"
  define blocks where "blocks = map the chain"
  from map_Some_the[OF n] have c: "chain = map Some blocks" by (simp add: blocks_def)
  show "case getBlockByNoteId chain noteId of
         Inl e \<Rightarrow> False
       | Inr None \<Rightarrow> (\<forall>b. Some b \<in> set chain \<longrightarrow> enc_id (data b) \<noteq> noteId)
       | Inr (Some found) \<Rightarrow>
           (\<exists>i<length chain. chain ! i = Some found \<and> enc_id (data found) = noteId
              \<and> (\<forall>j<i. \<forall>b. chain ! j = Some b \<longrightarrow> enc_id (data b) \<noteq> noteId))"
  proof (cases "List.find (\<lambda>b. enc_id (data b) = noteId) blocks")
    case None
    then have "\<forall>b\<in>set blocks. enc_id (data b) \<noteq> noteId"
      by (simp add: find_None_iff)
    with None show ?thesis unfolding c by (auto simp: getBlockByNoteId_typed)
  next
    case (Some found)
    then obtain i where i: "i < length blocks" "blocks ! i = found"
      "enc_id (data found) = noteId" "\<forall>j<i. enc_id (data (blocks ! j)) \<noteq> noteId"
      unfolding find_Some_iff by blast
    have "\<exists>i<length (map Some blocks). map Some blocks ! i = Some found
              \<and> enc_id (data found) = noteId
              \<and> (\<forall>j<i. \<forall>b. map Some blocks ! j = Some b \<longrightarrow> enc_id (data b) \<noteq> noteId)"
      using i by (intro exI[of _ i]) auto
    with Some show ?thesis unfolding c by (simp add: getBlockByNoteId_typed)
  qed
next
  assume "addNotes rt ((clk, payload) # calls) [] = Some (Inr built1)"
  from addNotes_genesis_first[OF this] obtain rest where
    "built1 = Some (createGenesisBlock rt clk) # rest" by blast
  moreover have "enc_id (data (createGenesisBlock rt clk)) = ''genesis''"
    by (simp add: createGenesisBlock_def Let_def)
  ultimately
  show "getBlockByNoteId built1 ''genesis'' = Inr (Some (createGenesisBlock rt clk))"
    by (simp add: getBlockByNoteId_head)
next
  assume a: "addNotes rt calls' [] = Some (Inr built2) \<and> noteId' \<noteq> ''genesis''
        \<and> noteId' \<notin> set (map (\<lambda>c. enc_id (snd c)) calls')"
  let ?S = "insert ''genesis'' (set (map (\<lambda>c. enc_id (snd c)) calls'))"
  from a have b: "addNotes rt calls' [] = Some (Inr built2)" by simp
  have "\<forall>e\<in>set built2. \<exists>x. e = Some x \<and> enc_id (data x) \<in> ?S"
    by (rule addNotes_ids[OF b]) auto
  with a have "\<forall>e\<in>set built2. \<exists>x. e = Some x \<and> enc_id (data x) \<noteq> noteId'"
    by fastforce
  then show "getBlockByNoteId built2 noteId' = Inr None" by (rule getBlockByNoteId_absent)
qed

text \<open>
  The theorem on a chain with two blocks of payload id \<^verbatim>\<open>n1\<close>, and on the sample chain
  with the id \<^verbatim>\<open>genesis\<close> and with an id that was not appended.
\<close>

theorem getBlockByNoteId_first_match_witness:
  "getBlockByNoteId [Some sample_genesis, Some sample_block1, Some sample_presealed] ''n1''
     = Inr (Some sample_block1)
   \<and> (\<exists>i<3. [Some sample_genesis, Some sample_block1, Some sample_presealed] ! i
               = Some sample_block1
         \<and> enc_id (data sample_block1) = ''n1'')
   \<and> addNotes sample_rt [(sample_clock1, sample_payload1)] [] = Some (Inr sample_chain)
   \<and> getBlockByNoteId sample_chain ''genesis''
        = Inr (Some (createGenesisBlock sample_rt sample_clock1))
   \<and> getBlockByNoteId sample_chain ''n2'' = Inr None"
proof -
  let ?chain = "[Some sample_genesis, Some sample_block1, Some sample_presealed]"
  note t = getBlockByNoteId_first_match[where chain = ?chain and noteId = "''n1''"
      and rt = sample_rt and clk = sample_clock1 and payload = sample_payload1 and calls = "[]"
      and ?built1.0 = sample_chain and calls' = "[(sample_clock1, sample_payload1)]"
      and ?built2.0 = sample_chain and noteId' = "''n2''"]
  have n: "None \<notin> set ?chain" by simp
  have a: "getBlockByNoteId ?chain ''n1'' = Inr (Some sample_block1)" by code_simp
  have h: "''n2'' \<noteq> ''genesis''"
    "''n2'' \<notin> set (map (\<lambda>c. enc_id (snd c)) [(sample_clock1, sample_payload1)])"
    by code_simp+
  from t n have "case getBlockByNoteId ?chain ''n1'' of
         Inl e \<Rightarrow> False
       | Inr None \<Rightarrow> (\<forall>b. Some b \<in> set ?chain \<longrightarrow> enc_id (data b) \<noteq> ''n1'')
       | Inr (Some found) \<Rightarrow>
           (\<exists>i<length ?chain. ?chain ! i = Some found \<and> enc_id (data found) = ''n1''
              \<and> (\<forall>j<i. \<forall>b. ?chain ! j = Some b \<longrightarrow> enc_id (data b) \<noteq> ''n1''))"
    by blast
  then have 1: "\<exists>i<3. ?chain ! i = Some sample_block1 \<and> enc_id (data sample_block1) = ''n1''"
    unfolding a by (auto simp: numeral_3_eq_3)
  from t sample_addNotes1 have 2: "getBlockByNoteId sample_chain ''genesis''
        = Inr (Some (createGenesisBlock sample_rt sample_clock1))" by blast
  from t sample_addNotes1 h have 3: "getBlockByNoteId sample_chain ''n2'' = Inr None"
    by blast
  from a 1 2 3 sample_addNotes1 show ?thesis by blast
qed

text \<open>
  C8 as stated fails twice. After one append of a payload with id \<^verbatim>\<open>n1\<close>, the id
  \<^verbatim>\<open>genesis\<close>, which no call appended, finds the genesis block. And \<^verbatim>\<open>importBlockchain\<close>
  accepts the text \<^verbatim>\<open>[null]\<close>, on whose chain the lookup throws a TypeError.
\<close>

theorem getBlockByNoteId_genesis_and_null_slot:
  "addNotes sample_rt [(sample_clock1, sample_payload1)] [] = Some (Inr sample_chain)
   \<and> enc_id sample_payload1 \<noteq> ''genesis''
   \<and> getBlockByNoteId sample_chain ''genesis'' = Inr (Some sample_genesis)
   \<and> importBlockchain sample_rt ''[null]'' sample_chain = (True, [None])
   \<and> getBlockByNoteId [None] ''n1'' = Inl TypeError"
proof (intro conjI)
  show "addNotes sample_rt [(sample_clock1, sample_payload1)] [] = Some (Inr sample_chain)"
    by (rule sample_addNotes1)
qed code_simp+

subsection \<open>C9: termination\<close>

text \<open>
  Claim C9 says that \<^verbatim>\<open>mineBlock\<close> terminates, with no error path, when some nonce gives a
  hash that meets the difficulty rule, and that \<^verbatim>\<open>validateChain\<close> returns a boolean on
  every chain state and never raises. The first half holds (\<open>mineBlock_returns_iff\<close>: the
  search returns exactly when the hash of the candidate meets the rule or a nonce above
  the nonce of the candidate does), and \<^verbatim>\<open>validateChain\<close> is a total function that returns
  a boolean on every chain of blocks (\<open>validateChain_typed\<close>). But it throws a TypeError on
  every chain whose slot at index 1 holds \<^verbatim>\<open>null\<close>, whatever the runtime, and that is a
  chain state the service reaches: \<^verbatim>\<open>importBlockchain\<close> of the text \<^verbatim>\<open>[null,null]\<close> leaves it
  installed when its own validation throws, and \<^verbatim>\<open>validateChain\<close> throws on it again.
\<close>

theorem validateChain_throws_on_null_slot:
  "validateChain rt [e, None] = Inl TypeError
   \<and> importBlockchain sample_rt ''[null,null]'' sample_chain = (False, [None, None])
   \<and> validateChain sample_rt (snd (importBlockchain sample_rt ''[null,null]'' sample_chain))
       = Inl TypeError"
proof (intro conjI)
  show "validateChain rt [e, None] = Inl TypeError"
    unfolding validateChain_def by (subst validate_from.simps) simp
qed code_simp+

subsection \<open>C10: chains of at most one block\<close>

text \<open>
  Claim C10: \<^verbatim>\<open>validateChain\<close> returns \<^verbatim>\<open>true\<close> on every chain of length 0 or 1, whatever
  the slot holds, and \<^verbatim>\<open>importBlockchain\<close> accepts every text that parses to such a chain:
  it returns \<^verbatim>\<open>true\<close> and installs the parsed chain in place of any prior chain.
\<close>

theorem short_chain_always_valid:
  "(length chain \<le> 1 \<longrightarrow> validateChain rt chain = Inr True)
   \<and> (JSON_parse_chain rt chainData = Some candidate \<and> length candidate \<le> 1
        \<longrightarrow> importBlockchain rt chainData prior = (True, candidate))"
  by (auto simp: validate_short intro: import_result)

text \<open>
  The theorem on a lone block that has the wrong \<^verbatim>\<open>previousHash\<close>, a hash that is not its
  digest and no leading zeros, and on the empty array: both replace the sample chain.
\<close>

theorem short_chain_always_valid_witness:
  "JSON_parse_chain sample_rt ''[x/ffff/abc/1/x,junk,D1,D1/7]'' = Some [Some sample_stray]
   \<and> importBlockchain sample_rt ''[x/ffff/abc/1/x,junk,D1,D1/7]'' sample_chain
        = (True, [Some sample_stray])
   \<and> validateChain sample_rt [Some sample_stray] = Inr True
   \<and> previousHash sample_stray \<noteq> ''0''
   \<and> hash sample_stray \<noteq> calculateHash sample_rt sample_stray
   \<and> \<not> meets_difficulty (hash sample_stray)
   \<and> importBlockchain sample_rt ''[]'' sample_chain = (True, [])"
proof -
  have p: "JSON_parse_chain sample_rt ''[x/ffff/abc/1/x,junk,D1,D1/7]''
             = Some [Some sample_stray]"
    by code_simp
  have q: "JSON_parse_chain sample_rt ''[]'' = Some []"
    by code_simp
  have g: "previousHash sample_stray \<noteq> ''0''"
    "hash sample_stray \<noteq> calculateHash sample_rt sample_stray"
    "\<not> meets_difficulty (hash sample_stray)"
    by code_simp+
  from short_chain_always_valid[of "[Some sample_stray]" sample_rt
         "''[x/ffff/abc/1/x,junk,D1,D1/7]''" "[Some sample_stray]" sample_chain]
       short_chain_always_valid[of "[]" sample_rt "''[]''" "[]" sample_chain]
       p q g
  show ?thesis by simp
qed

end
